theory Spec2Isabelle
  imports Main
begin

section \<open>The feed reader of examples/file\_feed\_asyncio.py\<close>

text \<open>
  The program is one asyncio event loop running one producer task
  (\<open>_get_from_feed_and_enqueue\<close>) and \<open>num_workers\<close> worker tasks
  (\<open>_process_files_from_queue\<close>) over one \<open>asyncio.Queue\<close>. Tasks of one event loop
  interleave only where they \<open>await\<close>, so the embedding is a transition system whose
  steps are the blocks of code between two suspension points. An event names the task that
  is resumed and what the outside world hands to it (the feed's next object, the bytes of a
  download, a failure, the interrupt signal). A schedule is a list of events; every order in
  which the event loop can resume the tasks is a schedule.
\<close>

subsection \<open>Data\<close>

text \<open>
  The exceptions that can leave the source's code: a missing \<open>'download_url'\<close> key
  (line 63), a failure of the feed client inside \<open>async for\<close> (line 46), a failure of
  \<open>client.get_async\<close> or \<open>response.read\<close> (lines 65-66), and a failure of
  \<open>open\<close> or \<open>write\<close> (lines 69-72).
\<close>

datatype error = KeyError | FeedError | ContentFetchError | PersistenceError

text \<open>
  A file object of the feed, as far as the program reads it: \<open>file_obj.id\<close>,
  \<open>file_obj.context_attributes.get('download_url')\<close>, the text
  \<open>json.dumps(file_obj.to_dict())\<close>, and the feed position reached once the object has
  been yielded (what \<open>feed.cursor\<close> returns then).
\<close>

record item =
  ident :: string
  download_url :: "string option"
  to_dict_json :: string
  pos :: string

text \<open>Where the producer task stands: not yet run, suspended in the feed's
  \<open>__anext__\<close> (line 46), suspended in \<open>queue.put\<close> on a full queue (line 47), past
  line 50, or ended by an exception.\<close>

datatype ptask = P_Init | P_Next | P_Put item | P_Done | P_Failed error

text \<open>Where a worker task stands: not yet run, suspended in \<open>queue.get\<close> (line 60),
  in \<open>client.get_async\<close> (line 65), in \<open>response.read\<close> (line 66), out of its
  \<open>while\<close> loop by the loop test, or ended by an exception.\<close>

datatype wtask = W_Init | W_Get | W_Fetch item | W_Read item | W_Done | W_Failed error

text \<open>How the two \<open>open\<close>/\<open>write\<close> pairs of lines 69-72 end.\<close>

datatype fs_result = WriteOk | MetaWriteFails | ContentWriteFails

text \<open>
  The fields of \<open>FeedReader\<close> (\<open>self._x\<close> is \<open>self_x\<close>; the queue is its
  \<open>maxsize\<close> and its items, oldest first), the two kinds of task the event loop holds,
  and the world the tasks act on: the feed object of line 45, the files written and the
  lines printed. \<open>queue.task_done()\<close> only decrements the queue's count of unfinished
  tasks, which nothing in the program reads (there is no \<open>join\<close>), so the count is not
  part of the state.
\<close>

record feed_reader =
  self_apikey :: string
  self_aborted :: bool
  self_cursor :: "string option"
  self_output_dir :: string
  self_num_workers :: int
  queue_maxsize :: int
  queue_items :: "item list"
  producer_task :: ptask
  self_worker_tasks :: "wtask list"
  feed_cursor :: "string option"
  files :: "string \<rightharpoonup> string"
  printed :: "string list"

datatype event =
    Abort
  | ProducerStart
  | FeedYield item
  | FeedStop
  | FeedFail
  | PutResume
  | WorkerStart nat
  | GetResume nat
  | Response nat
  | ReadDone nat string fs_result
  | FetchFail nat

subsection \<open>Construction, abort, cursor\<close>

text \<open>\<open>FeedReader.__init__\<close> (lines 34-40). No task exists yet; the feed object is
  created by the producer.\<close>

definition init :: "string \<Rightarrow> string \<Rightarrow> int \<Rightarrow> string option \<Rightarrow> feed_reader" where
  "init apikey output_dir num_workers cursor0 =
     \<lparr> self_apikey = apikey,
       self_aborted = False,
       self_cursor = cursor0,
       self_output_dir = output_dir,
       self_num_workers = num_workers,
       queue_maxsize = num_workers,
       queue_items = [],
       producer_task = P_Init,
       self_worker_tasks = [],
       feed_cursor = None,
       files = Map.empty,
       printed = [] \<rparr>"

definition abort :: "feed_reader \<Rightarrow> feed_reader" where
  "abort s = s\<lparr>self_aborted := True\<rparr>"

definition cursor :: "feed_reader \<Rightarrow> string option" where
  "cursor s = self_cursor s"

subsection \<open>The queue\<close>

text \<open>\<open>asyncio.Queue.full\<close>: a queue whose \<open>maxsize\<close> is zero or negative is never
  full.\<close>

definition queue_full :: "feed_reader \<Rightarrow> bool" where
  "queue_full s =
     (0 < queue_maxsize s \<and> queue_maxsize s \<le> int (length (queue_items s)))"

definition put_nowait :: "item \<Rightarrow> feed_reader \<Rightarrow> feed_reader" where
  "put_nowait x s = s\<lparr>queue_items := queue_items s @ [x]\<rparr>"

subsection \<open>The producer: \<open>_get_from_feed_and_enqueue\<close>\<close>

text \<open>
  Modelled from the spec: \<open>vt.Client.feed\<close> and the feed object it returns are not
  among the source files. The spec's FeedSource "tracks the position of the last item it
  yielded" and is opened at "an optional resume position": the feed's cursor starts as the
  position it was opened at and becomes the position of each object as it is yielded.
\<close>

definition feed_open :: "feed_reader \<Rightarrow> feed_reader" where
  "feed_open s = s\<lparr>feed_cursor := self_cursor s\<rparr>"

definition feed_yield :: "item \<Rightarrow> feed_reader \<Rightarrow> feed_reader" where
  "feed_yield x s = s\<lparr>feed_cursor := Some (pos x)\<rparr>"

text \<open>Line 50, reached when the \<open>async for\<close> ends, by exhaustion or by \<open>break\<close>.\<close>

definition finish_loop :: "feed_reader \<Rightarrow> feed_reader" where
  "finish_loop s = s\<lparr>self_cursor := feed_cursor s, producer_task := P_Done\<rparr>"

text \<open>Lines 48-49 and the return to line 46: the flag is tested once the object is in the
  queue; when it is not set the next object is requested.\<close>

definition after_put :: "feed_reader \<Rightarrow> feed_reader" where
  "after_put s = (if self_aborted s then finish_loop s else s\<lparr>producer_task := P_Next\<rparr>)"

text \<open>Line 47 for an object just yielded: \<open>put\<close> suspends on a full queue.\<close>

definition on_item :: "item \<Rightarrow> feed_reader \<Rightarrow> feed_reader" where
  "on_item x s =
     (if queue_full s then s\<lparr>producer_task := P_Put x\<rparr> else after_put (put_nowait x s))"

subsection \<open>A worker: \<open>_process_files_from_queue\<close>\<close>

definition set_worker :: "nat \<Rightarrow> wtask \<Rightarrow> feed_reader \<Rightarrow> feed_reader" where
  "set_worker i w s = s\<lparr>self_worker_tasks := (self_worker_tasks s)[i := w]\<rparr>"

text \<open>\<open>posixpath.isabs\<close> and \<open>posixpath.join\<close> of two strings, as
  \<open>os.path.join(self._output_dir, file_obj.id)\<close> calls it (line 64): an absolute second
  part replaces the first; otherwise the parts are joined by one separator, which is left out
  when the first part is empty or ends with it.\<close>

definition isabs :: "string \<Rightarrow> bool" where
  "isabs b = (b \<noteq> [] \<and> hd b = CHR ''/'')"

definition path_join :: "string \<Rightarrow> string \<Rightarrow> string" where
  "path_join a b =
     (if isabs b then b
      else if a = [] \<or> last a = CHR ''/'' then a @ b
      else a @ ''/'' @ b)"

definition file_path :: "feed_reader \<Rightarrow> item \<Rightarrow> string" where
  "file_path s x = path_join (self_output_dir s) (ident x)"

definition metadata_path :: "feed_reader \<Rightarrow> item \<Rightarrow> string" where
  "metadata_path s x = file_path s x @ ''.json''"

text \<open>Lines 63-65 for an object just taken from the queue: the lookup of
  \<open>'download_url'\<close> raises when the key is missing; otherwise the download is
  requested.\<close>

definition begin_item :: "nat \<Rightarrow> item \<Rightarrow> feed_reader \<Rightarrow> feed_reader" where
  "begin_item i x s =
     (case download_url x of
        None \<Rightarrow> set_worker i (W_Failed KeyError) s
      | Some url \<Rightarrow> set_worker i (W_Fetch x) s)"

text \<open>Lines 59-60: the loop test, then \<open>queue.get\<close>, which suspends on an empty
  queue and otherwise returns the oldest object at once.\<close>

definition loop_head :: "nat \<Rightarrow> feed_reader \<Rightarrow> feed_reader" where
  "loop_head i s =
     (if \<not> self_aborted s \<or> queue_items s \<noteq> [] then
        (case queue_items s of
           [] \<Rightarrow> set_worker i W_Get s
         | x # q \<Rightarrow> begin_item i x (s\<lparr>queue_items := q\<rparr>))
      else set_worker i W_Done s)"

text \<open>Lines 69-74 and the return to line 59, once \<open>response.read\<close> has returned
  \<open>data\<close>. A failing \<open>open\<close> leaves the file system as it was.\<close>

fun write_files :: "nat \<Rightarrow> item \<Rightarrow> string \<Rightarrow> fs_result \<Rightarrow> feed_reader \<Rightarrow> feed_reader" where
  "write_files i x data MetaWriteFails s = set_worker i (W_Failed PersistenceError) s"
| "write_files i x data ContentWriteFails s =
     set_worker i (W_Failed PersistenceError)
       (s\<lparr>files := (files s)(metadata_path s x \<mapsto> to_dict_json x)\<rparr>)"
| "write_files i x data WriteOk s =
     loop_head i
       (s\<lparr>files := (files s)(metadata_path s x \<mapsto> to_dict_json x, file_path s x \<mapsto> data),
          printed := printed s @ [ident x]\<rparr>)"

definition worker :: "feed_reader \<Rightarrow> nat \<Rightarrow> wtask option" where
  "worker s i = (if i < length (self_worker_tasks s) then Some (self_worker_tasks s ! i) else None)"

subsection \<open>The event loop\<close>

text \<open>One step of the event loop: the event's task runs from where it is suspended to its
  next suspension point. \<open>None\<close>: the event cannot happen in this state.\<close>

fun step :: "event \<Rightarrow> feed_reader \<Rightarrow> feed_reader option" where
  "step Abort s = Some (abort s)"
| "step ProducerStart s =
     (if producer_task s = P_Init then Some ((feed_open s)\<lparr>producer_task := P_Next\<rparr>) else None)"
| "step (FeedYield x) s =
     (if producer_task s = P_Next then Some (on_item x (feed_yield x s)) else None)"
| "step FeedStop s =
     (if producer_task s = P_Next then Some (finish_loop s) else None)"
| "step FeedFail s =
     (if producer_task s = P_Next then Some (s\<lparr>producer_task := P_Failed FeedError\<rparr>) else None)"
| "step PutResume s =
     (case producer_task s of
        P_Put x \<Rightarrow> if queue_full s then None else Some (after_put (put_nowait x s))
      | _ \<Rightarrow> None)"
| "step (WorkerStart i) s =
     (case worker s i of Some W_Init \<Rightarrow> Some (loop_head i s) | _ \<Rightarrow> None)"
| "step (GetResume i) s =
     (case worker s i of
        Some W_Get \<Rightarrow>
          (case queue_items s of
             [] \<Rightarrow> None
           | x # q \<Rightarrow> Some (begin_item i x (s\<lparr>queue_items := q\<rparr>)))
      | _ \<Rightarrow> None)"
| "step (Response i) s =
     (case worker s i of Some (W_Fetch x) \<Rightarrow> Some (set_worker i (W_Read x) s) | _ \<Rightarrow> None)"
| "step (ReadDone i data r) s =
     (case worker s i of Some (W_Read x) \<Rightarrow> Some (write_files i x data r s) | _ \<Rightarrow> None)"
| "step (FetchFail i) s =
     (case worker s i of
        Some (W_Fetch x) \<Rightarrow> Some (set_worker i (W_Failed ContentFetchError) s)
      | Some (W_Read x) \<Rightarrow> Some (set_worker i (W_Failed ContentFetchError) s)
      | _ \<Rightarrow> None)"

fun exec :: "event list \<Rightarrow> feed_reader \<Rightarrow> feed_reader option" where
  "exec [] s = Some s"
| "exec (e # es) s = (case step e s of None \<Rightarrow> None | Some s' \<Rightarrow> exec es s')"

subsection \<open>\<open>run\<close>\<close>

text \<open>Lines 84-94: the tasks are created; none has run yet.\<close>

definition create_tasks :: "feed_reader \<Rightarrow> feed_reader" where
  "create_tasks s =
     s\<lparr>producer_task := P_Init,
       self_worker_tasks := replicate (nat (self_num_workers s)) W_Init\<rparr>"

text \<open>What \<open>asyncio.gather(*self._worker_tasks)\<close> is, given the workers: an exception
  of a worker is raised to the caller as soon as it happens; otherwise the result is there
  once every worker has returned.\<close>

fun first_error :: "wtask list \<Rightarrow> error option" where
  "first_error [] = None"
| "first_error (W_Failed e # ws) = Some e"
| "first_error (w # ws) = first_error ws"

definition all_done :: "wtask list \<Rightarrow> bool" where
  "all_done ws = list_all (\<lambda>w. w = W_Done) ws"

datatype outcome =
    Returned feed_reader
  | Raised error feed_reader
  | Pending feed_reader
  | NotEnabled

text \<open>Line 102, \<open>loop.run_until_complete\<close>: the loop runs the schedule until the
  gathered workers are finished. \<open>Pending\<close>: the schedule is over and \<open>run\<close> is still
  blocked. \<open>NotEnabled\<close>: the schedule names an event that cannot happen.\<close>

fun run_until_complete :: "event list \<Rightarrow> feed_reader \<Rightarrow> outcome" where
  "run_until_complete [] s =
     (case first_error (self_worker_tasks s) of
        Some err \<Rightarrow> Raised err s
      | None \<Rightarrow> if all_done (self_worker_tasks s) then Returned s else Pending s)"
| "run_until_complete (e # es) s =
     (case first_error (self_worker_tasks s) of
        Some err \<Rightarrow> Raised err s
      | None \<Rightarrow>
          if all_done (self_worker_tasks s) then Returned s
          else (case step e s of
                  None \<Rightarrow> NotEnabled
                | Some s' \<Rightarrow> run_until_complete es s'))"

definition run :: "event list \<Rightarrow> feed_reader \<Rightarrow> outcome" where
  "run es s = run_until_complete es (create_tasks s)"

subsection \<open>Concrete feeds and schedules\<close>

text \<open>File objects with distinct identifiers and positions, used where a statement is
  evaluated on a concrete run.\<close>

definition item_a :: item where
  "item_a = \<lparr>ident = ''a'', download_url = Some ''https://host/a'',
              to_dict_json = ''{}'', pos = ''p1''\<rparr>"

definition item_b :: item where
  "item_b = \<lparr>ident = ''b'', download_url = Some ''https://host/b'',
              to_dict_json = ''{}'', pos = ''p2''\<rparr>"

definition item_a_json :: item where
  "item_a_json = \<lparr>ident = ''a.json'', download_url = Some ''https://host/a.json'',
                   to_dict_json = ''{}'', pos = ''p3''\<rparr>"

text \<open>The producer starts and the feed yields \<open>a\<close> before any worker has run.\<close>

definition schedule_full :: "event list" where
  "schedule_full = [ProducerStart, FeedYield item_a]"

text \<open>One worker takes \<open>a\<close>; the interrupt arrives while it downloads and the producer
  waits for the feed.\<close>

definition schedule_draining :: "event list" where
  "schedule_draining = [ProducerStart, WorkerStart 0, FeedYield item_a, GetResume 0, Abort]"

definition reader_resumed :: feed_reader where
  "reader_resumed = create_tasks (init ''key'' ''out'' 1 (Some ''p0''))"

definition state_draining :: feed_reader where
  "state_draining =
     \<lparr> self_apikey = ''key'', self_aborted = True, self_cursor = Some ''p0'',
       self_output_dir = ''out'', self_num_workers = 1, queue_maxsize = 1,
       queue_items = [], producer_task = P_Next, self_worker_tasks = [W_Fetch item_a],
       feed_cursor = Some ''p1'', files = Map.empty, printed = [] \<rparr>"


text \<open>A run resumed at \<open>p0\<close> with one worker: \<open>a\<close> and \<open>b\<close> are yielded and
  processed; the interrupt arrives during the download of \<open>b\<close>, while the producer waits
  for the feed's third object.\<close>

definition schedule_interrupted :: "event list" where
  "schedule_interrupted =
     [ProducerStart, WorkerStart 0, FeedYield item_a, GetResume 0, FeedYield item_b,
      Response 0, ReadDone 0 ''A'' WriteOk, Abort, Response 0, ReadDone 0 ''B'' WriteOk]"

definition state_interrupted :: feed_reader where
  "state_interrupted =
     \<lparr> self_apikey = ''key'', self_aborted = True, self_cursor = Some ''p0'',
       self_output_dir = ''out'', self_num_workers = 1, queue_maxsize = 1,
       queue_items = [], producer_task = P_Next, self_worker_tasks = [W_Done],
       feed_cursor = Some ''p2'',
       files = [''out/a.json'' \<mapsto> ''{}'', ''out/a'' \<mapsto> ''A'',
                ''out/b.json'' \<mapsto> ''{}'', ''out/b'' \<mapsto> ''B''],
       printed = [''a'', ''b''] \<rparr>"



text \<open>The feed fails on the first request, with one worker waiting in \<open>get\<close>.\<close>

definition schedule_feed_fails :: "event list" where
  "schedule_feed_fails = [ProducerStart, WorkerStart 0, FeedFail]"

definition state_stranded :: feed_reader where
  "state_stranded =
     \<lparr> self_apikey = ''key'', self_aborted = False, self_cursor = None,
       self_output_dir = ''out'', self_num_workers = 1, queue_maxsize = 1,
       queue_items = [], producer_task = P_Failed FeedError, self_worker_tasks = [W_Get],
       feed_cursor = None, files = Map.empty, printed = [] \<rparr>"



text \<open>The download of \<open>a\<close> succeeds and the metadata file cannot be opened, while
  \<open>b\<close> waits in the queue.\<close>

definition schedule_write_fails :: "event list" where
  "schedule_write_fails =
     [ProducerStart, WorkerStart 0, FeedYield item_a, GetResume 0, FeedYield item_b,
      Response 0, ReadDone 0 ''A'' MetaWriteFails]"

definition state_write_failed :: feed_reader where
  "state_write_failed =
     \<lparr> self_apikey = ''key'', self_aborted = False, self_cursor = None,
       self_output_dir = ''out'', self_num_workers = 1, queue_maxsize = 1,
       queue_items = [item_b], producer_task = P_Next,
       self_worker_tasks = [W_Failed PersistenceError],
       feed_cursor = Some ''p2'', files = Map.empty, printed = [] \<rparr>"

section \<open>Properties\<close>

subsection \<open>Unfolding the tasks\<close>

lemma write_files_case:
  "write_files i x d r s =
     (case r of
        MetaWriteFails \<Rightarrow> set_worker i (W_Failed PersistenceError) s
      | ContentWriteFails \<Rightarrow>
          set_worker i (W_Failed PersistenceError)
            (s\<lparr>files := (files s)(metadata_path s x \<mapsto> to_dict_json x)\<rparr>)
      | WriteOk \<Rightarrow>
          loop_head i
            (s\<lparr>files := (files s)(metadata_path s x \<mapsto> to_dict_json x, file_path s x \<mapsto> d),
               printed := printed s @ [ident x]\<rparr>))"
  by (cases r) simp_all

lemmas task_defs =
  abort_def put_nowait_def feed_open_def feed_yield_def finish_loop_def after_put_def
  on_item_def set_worker_def begin_item_def loop_head_def worker_def write_files_case

lemmas task_splits =
  if_splits option.splits list.splits wtask.splits ptask.splits fs_result.splits

subsection \<open>The queue's bound\<close>

lemma step_maxsize: "step e s = Some s' \<Longrightarrow> queue_maxsize s' = queue_maxsize s"
  by (cases e) (auto simp: task_defs split: task_splits)

lemma step_queue_bound:
  "step e s = Some s' \<Longrightarrow> 0 < queue_maxsize s \<Longrightarrow>
   int (length (queue_items s)) \<le> queue_maxsize s \<Longrightarrow>
   int (length (queue_items s')) \<le> queue_maxsize s"
  by (cases e) (auto simp: task_defs queue_full_def split: task_splits)

lemma exec_queue_bound:
  "exec es s = Some s' \<Longrightarrow> 0 < queue_maxsize s \<Longrightarrow>
   int (length (queue_items s)) \<le> queue_maxsize s \<Longrightarrow>
   queue_maxsize s' = queue_maxsize s \<and> int (length (queue_items s')) \<le> queue_maxsize s"
proof (induction es arbitrary: s)
  case Nil
  then show ?case by simp
next
  case (Cons e es)
  from Cons.prems(1) obtain t where t: "step e s = Some t" and r: "exec es t = Some s'"
    by (auto split: option.splits)
  have m: "queue_maxsize t = queue_maxsize s" using t by (rule step_maxsize)
  have b: "int (length (queue_items t)) \<le> queue_maxsize s"
    using t Cons.prems(2,3) by (rule step_queue_bound)
  from Cons.IH[OF r] m b Cons.prems(2) show ?case by simp
qed

lemma full_put_waits: "queue_full s \<Longrightarrow> step PutResume s = None"
  by (simp split: ptask.splits)

text \<open>
  Claim C7. With one worker or more, in every state that any schedule of a run reaches, the
  queue holds at most \<open>maxsize\<close> objects, and \<open>maxsize\<close> is the number of workers.
  While the queue is full the producer cannot put: an object the feed yields then leaves
  the producer suspended in \<open>put\<close> with the queue as it was, and the suspended \<open>put\<close>
  cannot resume.
\<close>

theorem queue_length_bounded:
  assumes "1 \<le> n"
    and "exec es (create_tasks (init apikey output_dir n cursor0)) = Some s"
  shows "queue_maxsize s = n \<and> int (length (queue_items s)) \<le> n \<and>
         (queue_full s \<longrightarrow>
            step PutResume s = None \<and>
            (producer_task s = P_Next \<longrightarrow>
               (\<exists>s'. step (FeedYield x) s = Some s' \<and> producer_task s' = P_Put x \<and>
                     queue_items s' = queue_items s)))"
proof -
  let ?s0 = "create_tasks (init apikey output_dir n cursor0)"
  have m0: "queue_maxsize ?s0 = n" and q0: "queue_items ?s0 = []"
    by (simp_all add: create_tasks_def init_def)
  have "queue_maxsize s = queue_maxsize ?s0 \<and> int (length (queue_items s)) \<le> queue_maxsize ?s0"
    using assms(2) by (rule exec_queue_bound) (use assms(1) m0 q0 in simp_all)
  then have inv: "queue_maxsize s = n" "int (length (queue_items s)) \<le> n"
    using m0 by simp_all
  have susp: "queue_full s \<Longrightarrow> producer_task s = P_Next \<Longrightarrow>
      \<exists>s'. step (FeedYield x) s = Some s' \<and> producer_task s' = P_Put x \<and>
            queue_items s' = queue_items s"
    by (simp add: on_item_def queue_full_def feed_yield_def)
  show ?thesis using inv susp full_put_waits by blast
qed

theorem queue_length_bounded_witness:
  "(1::int) \<le> 1 \<and>
   exec schedule_full (create_tasks (init ''key'' ''out'' 1 None)) =
     Some \<lparr> self_apikey = ''key'', self_aborted = False, self_cursor = None,
            self_output_dir = ''out'', self_num_workers = 1, queue_maxsize = 1,
            queue_items = [item_a], producer_task = P_Next, self_worker_tasks = [W_Init],
            feed_cursor = Some ''p1'', files = Map.empty, printed = [] \<rparr> \<and>
   queue_full \<lparr> self_apikey = ''key'', self_aborted = False, self_cursor = None,
            self_output_dir = ''out'', self_num_workers = 1, queue_maxsize = 1,
            queue_items = [item_a], producer_task = P_Next, self_worker_tasks = [W_Init],
            feed_cursor = Some ''p1'', files = Map.empty, printed = [] \<rparr> \<and>
   step PutResume \<lparr> self_apikey = ''key'', self_aborted = False, self_cursor = None,
            self_output_dir = ''out'', self_num_workers = 1, queue_maxsize = 1,
            queue_items = [item_a], producer_task = P_Next, self_worker_tasks = [W_Init],
            feed_cursor = Some ''p1'', files = Map.empty, printed = [] \<rparr> = None"
proof -
  have e: "exec schedule_full (create_tasks (init ''key'' ''out'' 1 None)) =
     Some \<lparr> self_apikey = ''key'', self_aborted = False, self_cursor = None,
            self_output_dir = ''out'', self_num_workers = 1, queue_maxsize = 1,
            queue_items = [item_a], producer_task = P_Next, self_worker_tasks = [W_Init],
            feed_cursor = Some ''p1'', files = Map.empty, printed = [] \<rparr>"
    by (simp add: schedule_full_def create_tasks_def init_def task_defs queue_full_def item_a_def)
  show ?thesis
    using queue_length_bounded [OF _ e, of item_b] e by (simp add: queue_full_def)
qed

subsection \<open>Evaluating the concrete schedules\<close>

lemmas eval_defs =
  create_tasks_def init_def task_defs queue_full_def run_def all_done_def
  metadata_path_def file_path_def path_join_def isabs_def
  item_a_def item_b_def item_a_json_def

lemma exec_schedule_draining: "exec schedule_draining reader_resumed = Some state_draining"
  by (simp add: schedule_draining_def reader_resumed_def state_draining_def eval_defs)


lemma run_schedule_interrupted:
  "run schedule_interrupted (init ''key'' ''out'' 1 (Some ''p0'')) = Returned state_interrupted"
  by (simp add: schedule_interrupted_def state_interrupted_def eval_defs)


lemma exec_schedule_feed_fails:
  "exec schedule_feed_fails (create_tasks (init ''key'' ''out'' 1 None)) = Some state_stranded"
  by (simp add: schedule_feed_fails_def state_stranded_def eval_defs)

lemma run_schedule_feed_fails:
  "run schedule_feed_fails (init ''key'' ''out'' 1 None) = Pending state_stranded"
  by (simp add: schedule_feed_fails_def state_stranded_def eval_defs)


lemma exec_schedule_write_fails:
  "exec schedule_write_fails (create_tasks (init ''key'' ''out'' 1 None)) =
     Some state_write_failed"
  by (simp add: schedule_write_fails_def state_write_failed_def eval_defs)


subsection \<open>The stored cursor\<close>

lemma step_cursor:
  "step e s = Some s' \<Longrightarrow> producer_task s' = P_Done \<longrightarrow> producer_task s = P_Done \<Longrightarrow>
   self_cursor s' = self_cursor s"
  by (cases e) (auto simp: task_defs split: task_splits)

lemma step_done_absorbing:
  "step e s = Some s' \<Longrightarrow> producer_task s = P_Done \<Longrightarrow> producer_task s' = P_Done"
  by (cases e) (auto simp: task_defs split: task_splits)

lemma exec_done_absorbing:
  "exec es s = Some t \<Longrightarrow> producer_task s = P_Done \<Longrightarrow> producer_task t = P_Done"
  by (induction es arbitrary: s) (auto split: option.splits dest: step_done_absorbing)

lemma exec_cursor:
  "exec es s = Some t \<Longrightarrow> producer_task t \<noteq> P_Done \<Longrightarrow> self_cursor t = self_cursor s"
proof (induction es arbitrary: s)
  case Nil
  then show ?case by simp
next
  case (Cons e es)
  from Cons.prems(1) obtain u where u: "step e s = Some u" and r: "exec es u = Some t"
    by (auto split: option.splits)
  have eq: "self_cursor t = self_cursor u" using r Cons.prems(2) by (rule Cons.IH)
  have "producer_task u \<noteq> P_Done"
    using r Cons.prems(2) by (auto dest: exec_done_absorbing)
  with u have "self_cursor u = self_cursor s" by (simp add: step_cursor)
  with eq show ?case by simp
qed

lemma worker_step_cursor:
  "e = WorkerStart i \<or> e = GetResume i \<or> e = Response i \<or> e = ReadDone i d r \<or>
   e = FetchFail i \<Longrightarrow>
   step e s = Some s' \<Longrightarrow> self_cursor s' = self_cursor s \<and> producer_task s' = producer_task s"
  by (auto simp: task_defs split: task_splits)

text \<open>When the producer has passed line 50, the stored cursor is the feed's cursor: the
  position of the last object the feed yielded, or the starting position when it yielded
  none.\<close>

lemma step_cursor_after_loop:
  "step e s = Some s' \<Longrightarrow> producer_task s = P_Done \<longrightarrow> self_cursor s = feed_cursor s \<Longrightarrow>
   producer_task s' = P_Done \<longrightarrow> self_cursor s' = feed_cursor s'"
  by (cases e) (auto simp: task_defs split: task_splits)

lemma exec_cursor_after_loop:
  "exec es s = Some t \<Longrightarrow> producer_task s = P_Done \<longrightarrow> self_cursor s = feed_cursor s \<Longrightarrow>
   producer_task t = P_Done \<longrightarrow> self_cursor t = feed_cursor t"
proof (induction es arbitrary: s)
  case Nil
  then show ?case by simp
next
  case (Cons e es)
  from Cons.prems(1) obtain u where u: "step e s = Some u" and r: "exec es u = Some t"
    by (auto split: option.splits)
  from u Cons.prems(2) have "producer_task u = P_Done \<longrightarrow> self_cursor u = feed_cursor u"
    by (rule step_cursor_after_loop)
  with r show ?case by (rule Cons.IH)
qed

text \<open>
  Claim C10. The stored cursor changes in no step but the one in which the producer passes
  line 50: the constructor stores the starting position; creating the tasks, \<open>abort\<close>,
  putting an object into the queue and every step of a worker leave it as it is; any step
  of the event loop that does not take the producer to the end of its loop leaves it as it
  is; and in every state a run reaches in which the producer has not finished its loop
  (it has not started, waits for the feed or for the queue, or has failed), \<open>cursor\<close>
  returns the starting position.
\<close>

theorem cursor_changes_only_at_loop_end:
  "cursor (init apikey output_dir n cursor0) = cursor0 \<and>
   cursor (create_tasks s) = cursor s \<and>
   cursor (abort s) = cursor s \<and>
   cursor (put_nowait x s) = cursor s \<and>
   ((e = WorkerStart i \<or> e = GetResume i \<or> e = Response i \<or> e = ReadDone i d r \<or>
     e = FetchFail i) \<and> step e s = Some s' \<longrightarrow> cursor s' = cursor s) \<and>
   (step e s = Some s' \<and> (producer_task s' = P_Done \<longrightarrow> producer_task s = P_Done) \<longrightarrow>
      cursor s' = cursor s) \<and>
   (exec es (create_tasks (init apikey output_dir n cursor0)) = Some t \<and>
    producer_task t \<noteq> P_Done \<longrightarrow> cursor t = cursor0)"
proof -
  have a: "cursor (init apikey output_dir n cursor0) = cursor0"
    by (simp add: cursor_def init_def)
  have b: "cursor (create_tasks s) = cursor s" "cursor (abort s) = cursor s"
    "cursor (put_nowait x s) = cursor s"
    by (simp_all add: cursor_def create_tasks_def abort_def put_nowait_def)
  have c: "(e = WorkerStart i \<or> e = GetResume i \<or> e = Response i \<or> e = ReadDone i d r \<or>
     e = FetchFail i) \<and> step e s = Some s' \<longrightarrow> cursor s' = cursor s"
    using worker_step_cursor[of e i d r s s'] by (auto simp: cursor_def)
  have d: "step e s = Some s' \<and> (producer_task s' = P_Done \<longrightarrow> producer_task s = P_Done) \<longrightarrow>
      cursor s' = cursor s"
    using step_cursor[of e s s'] by (auto simp: cursor_def)
  have e: "exec es (create_tasks (init apikey output_dir n cursor0)) = Some t \<and>
    producer_task t \<noteq> P_Done \<longrightarrow> cursor t = cursor0"
    using exec_cursor[of es "create_tasks (init apikey output_dir n cursor0)" t]
    by (auto simp: cursor_def create_tasks_def init_def)
  from a b c d e show ?thesis by blast
qed

theorem cursor_changes_only_at_loop_end_witness:
  "exec schedule_draining reader_resumed = Some state_draining \<and>
   producer_task state_draining \<noteq> P_Done \<and>
   cursor state_draining = Some ''p0'' \<and>
   step (Response 0) state_draining \<noteq> None \<and>
   cursor (the (step (Response 0) state_draining)) = Some ''p0''"
proof -
  let ?u = "the (step (Response 0) state_draining)"
  have t: "exec schedule_draining (create_tasks (init ''key'' ''out'' 1 (Some ''p0''))) =
      Some state_draining"
    using exec_schedule_draining by (simp add: reader_resumed_def)
  have p: "producer_task state_draining \<noteq> P_Done"
    by (simp add: state_draining_def)
  have r: "step (Response 0) state_draining = Some ?u"
    by (simp add: state_draining_def task_defs)
  note th = cursor_changes_only_at_loop_end
      [where e = "Response 0" and i = 0 and s = state_draining and s' = ?u
         and es = schedule_draining and apikey = "''key''" and output_dir = "''out''"
         and n = 1 and ?cursor0.0 = "Some ''p0''" and t = state_draining]
  from th t p have c1: "cursor state_draining = Some ''p0''"
    by blast
  from th r have "cursor ?u = cursor state_draining"
    by blast
  with c1 have c2: "cursor ?u = Some ''p0''"
    by simp
  from r have n2: "step (Response 0) state_draining \<noteq> None" by blast
  from exec_schedule_draining p c1 n2 c2 show ?thesis by blast
qed

subsection \<open>The producer and the abort flag\<close>








subsection \<open>How a worker leaves its loop\<close>


lemma worker_loop_head:
  "i < length (self_worker_tasks s) \<Longrightarrow>
   worker (loop_head i s) i =
     (if self_aborted s \<and> queue_items s = [] then Some W_Done
      else case queue_items s of
             [] \<Rightarrow> Some W_Get
           | x # q \<Rightarrow> (case download_url x of None \<Rightarrow> Some (W_Failed KeyError)
                                            | Some u \<Rightarrow> Some (W_Fetch x)))"
  by (auto simp: task_defs split: task_splits)

lemma queue_loop_head:
  "queue_items (loop_head i s) =
     (if self_aborted s \<and> queue_items s = [] then [] else tl (queue_items s))"
  by (auto simp: task_defs split: task_splits)

lemma step_becomes_done:
  "step e s = Some s' \<Longrightarrow> worker s i \<noteq> Some W_Done \<Longrightarrow> worker s' i = Some W_Done \<Longrightarrow>
   self_aborted s \<and> queue_items s = [] \<and> self_aborted s' \<and> queue_items s' = []"
  by (cases e) (auto simp: task_defs nth_list_update split: task_splits)

lemma step_leaves_get:
  "step e s = Some s' \<Longrightarrow> worker s i = Some W_Get \<Longrightarrow> worker s' i \<noteq> Some W_Get \<Longrightarrow>
   e = GetResume i \<and> queue_items s \<noteq> [] \<and> queue_items s' = tl (queue_items s)"
  by (cases e) (auto simp: task_defs nth_list_update split: task_splits)

lemma step_done_stays:
  "step e s = Some s' \<Longrightarrow> worker s i = Some W_Done \<Longrightarrow> worker s' i = Some W_Done"
  by (cases e) (auto simp: task_defs nth_list_update split: task_splits)

text \<open>
  Claim C4, as stated, fails: a worker also leaves its loop when an exception is raised
  inside it, whatever the flag and the queue are. In the run below the metadata file of
  \<open>a\<close> cannot be opened; the only worker is out of its loop while the flag is not set
  and \<open>b\<close> is still in the queue.
\<close>

theorem worker_exits_with_item_queued:
  "exec schedule_write_fails (create_tasks (init ''key'' ''out'' 1 None)) =
     Some state_write_failed \<and>
   worker state_write_failed 0 = Some (W_Failed PersistenceError) \<and>
   queue_items state_write_failed = [item_b] \<and>
   \<not> self_aborted state_write_failed"
  using exec_schedule_write_fails by (simp add: state_write_failed_def worker_def)

text \<open>
  Claim C4, amended. A worker leaves its loop through the loop test exactly when the test
  finds the flag set and the queue empty: the test of line 59 ends the loop if and only if
  both hold, and any step of the event loop in which a worker comes to have returned found
  the flag set and the queue empty, and leaves the queue empty. When the two do not both
  hold the worker goes on: it takes the oldest object of the queue (and requests its
  download, or fails on a missing download address), or it is suspended in \<open>get\<close> on
  the empty queue, which it leaves only by receiving an object. A worker that has returned
  stays so. (The other way out of the loop is an exception, which the loop test does not
  guard.)
\<close>

theorem worker_returns_only_when_drained:
  assumes "i < length (self_worker_tasks s)"
  shows
  "(worker (loop_head i s) i = Some W_Done \<longleftrightarrow> self_aborted s \<and> queue_items s = []) \<and>
   (step e s = Some s' \<and> worker s i \<noteq> Some W_Done \<and> worker s' i = Some W_Done \<longrightarrow>
      self_aborted s \<and> queue_items s = [] \<and> queue_items s' = []) \<and>
   (\<not> (self_aborted s \<and> queue_items s = []) \<longrightarrow>
      (case queue_items s of
         [] \<Rightarrow> worker (loop_head i s) i = Some W_Get \<and> queue_items (loop_head i s) = []
       | x # q \<Rightarrow>
           queue_items (loop_head i s) = q \<and>
           (worker (loop_head i s) i = Some (W_Fetch x) \<or>
            worker (loop_head i s) i = Some (W_Failed KeyError)))) \<and>
   (step e s = Some s' \<and> worker s i = Some W_Get \<and> worker s' i \<noteq> Some W_Get \<longrightarrow>
      e = GetResume i \<and> queue_items s \<noteq> [] \<and> queue_items s' = tl (queue_items s)) \<and>
   (step e s = Some s' \<and> worker s i = Some W_Done \<longrightarrow> worker s' i = Some W_Done)"
proof -
  have a: "worker (loop_head i s) i = Some W_Done \<longleftrightarrow> self_aborted s \<and> queue_items s = []"
    using assms by (auto simp: worker_loop_head split: list.splits option.splits)
  have b: "step e s = Some s' \<and> worker s i \<noteq> Some W_Done \<and> worker s' i = Some W_Done \<longrightarrow>
      self_aborted s \<and> queue_items s = [] \<and> queue_items s' = []"
    using step_becomes_done[of e s s' i] by blast
  have c: "\<not> (self_aborted s \<and> queue_items s = []) \<longrightarrow>
      (case queue_items s of
         [] \<Rightarrow> worker (loop_head i s) i = Some W_Get \<and> queue_items (loop_head i s) = []
       | x # q \<Rightarrow>
           queue_items (loop_head i s) = q \<and>
           (worker (loop_head i s) i = Some (W_Fetch x) \<or>
            worker (loop_head i s) i = Some (W_Failed KeyError)))"
    using assms by (auto simp: worker_loop_head queue_loop_head split: list.splits option.splits)
  have d: "step e s = Some s' \<and> worker s i = Some W_Get \<and> worker s' i \<noteq> Some W_Get \<longrightarrow>
      e = GetResume i \<and> queue_items s \<noteq> [] \<and> queue_items s' = tl (queue_items s)"
    using step_leaves_get[of e s s' i] by blast
  have e: "step e s = Some s' \<and> worker s i = Some W_Done \<longrightarrow> worker s' i = Some W_Done"
    using step_done_stays[of e s s' i] by blast
  from a b c d e show ?thesis by blast
qed

theorem worker_returns_only_when_drained_witness:
  "0 < length (self_worker_tasks (set_worker 0 (W_Read item_a) state_draining)) \<and>
   step (ReadDone 0 ''A'' WriteOk) (set_worker 0 (W_Read item_a) state_draining) \<noteq> None \<and>
   worker (set_worker 0 (W_Read item_a) state_draining) 0 \<noteq> Some W_Done \<and>
   worker (the (step (ReadDone 0 ''A'' WriteOk) (set_worker 0 (W_Read item_a) state_draining))) 0
     = Some W_Done \<and>
   self_aborted (set_worker 0 (W_Read item_a) state_draining) \<and>
   queue_items (set_worker 0 (W_Read item_a) state_draining) = [] \<and>
   queue_items (the (step (ReadDone 0 ''A'' WriteOk) (set_worker 0 (W_Read item_a) state_draining)))
     = []"
proof -
  let ?s = "set_worker 0 (W_Read item_a) state_draining"
  let ?e = "ReadDone 0 ''A'' WriteOk"
  let ?u = "the (step ?e ?s)"
  have len: "0 < length (self_worker_tasks ?s)"
    by (simp add: state_draining_def set_worker_def)
  have st: "step ?e ?s = Some ?u"
    by (simp add: state_draining_def eval_defs)
  have w0: "worker ?s 0 \<noteq> Some W_Done"
    by (simp add: state_draining_def eval_defs)
  have w1: "worker ?u 0 = Some W_Done"
    by (simp add: state_draining_def eval_defs)
  note th = worker_returns_only_when_drained [OF len, where e = ?e and s' = ?u]
  from th st w0 w1 have "self_aborted ?s \<and> queue_items ?s = [] \<and> queue_items ?u = []"
    by blast
  moreover from st have "step ?e ?s \<noteq> None" by blast
  ultimately show ?thesis using len w0 w1 by blast
qed

subsection \<open>A failure inside a worker\<close>












subsection \<open>What \<open>run\<close> waits for\<close>

lemma all_done_nth:
  "all_done ws \<longleftrightarrow> (\<forall>i<length ws. ws ! i = W_Done)"
  by (simp add: all_done_def list_all_length)







subsection \<open>A failure of the feed\<close>

lemma feed_fail_step:
  "step FeedFail s = Some s' \<Longrightarrow>
   producer_task s' = P_Failed FeedError \<and> self_aborted s' = self_aborted s \<and>
   cursor s' = cursor s \<and> queue_items s' = queue_items s \<and>
   self_worker_tasks s' = self_worker_tasks s"
  by (auto simp: cursor_def split: if_splits)

lemma flag_set_only_by_abort:
  "step e s = Some s' \<Longrightarrow> self_aborted s' \<Longrightarrow> \<not> self_aborted s \<Longrightarrow> e = Abort"
  by (cases e) (auto simp: task_defs split: task_splits)

lemma step_stranded:
  "step e s = Some s' \<Longrightarrow> producer_task s = P_Failed err \<Longrightarrow> queue_items s = [] \<Longrightarrow>
   worker s i = Some W_Get \<Longrightarrow>
   producer_task s' = P_Failed err \<and> queue_items s' = [] \<and> worker s' i = Some W_Get"
  by (cases e) (auto simp: task_defs nth_list_update split: task_splits)

lemma exec_stranded:
  "exec es s = Some t \<Longrightarrow> producer_task s = P_Failed err \<Longrightarrow> queue_items s = [] \<Longrightarrow>
   worker s i = Some W_Get \<Longrightarrow>
   producer_task t = P_Failed err \<and> queue_items t = [] \<and> worker t i = Some W_Get"
proof (induction es arbitrary: s)
  case Nil
  then show ?case by simp
next
  case (Cons e es)
  from Cons.prems(1) obtain u where u: "step e s = Some u" and r: "exec es u = Some t"
    by (auto split: option.splits)
  from step_stranded[OF u Cons.prems(2,3,4)] Cons.IH[OF r] show ?case by blast
qed

lemma stranded_never_returns:
  "producer_task s = P_Failed err \<Longrightarrow> queue_items s = [] \<Longrightarrow> worker s i = Some W_Get \<Longrightarrow>
   run_until_complete es s \<noteq> Returned t"
proof (induction es arbitrary: s)
  case Nil
  then have "\<not> all_done (self_worker_tasks s)"
    by (auto simp: all_done_nth worker_def split: if_splits)
  then show ?case by (auto split: option.splits)
next
  case (Cons e es)
  then have nd: "\<not> all_done (self_worker_tasks s)"
    by (auto simp: all_done_nth worker_def split: if_splits)
  show ?case
  proof (cases "step e s")
    case None
    with nd show ?thesis by (auto split: option.splits)
  next
    case (Some u)
    from step_stranded[OF Some Cons.prems] have "run_until_complete es u \<noteq> Returned t"
      by (intro Cons.IH) simp_all
    with Some nd show ?thesis by (auto split: option.splits)
  qed
qed

text \<open>
  Claim C2, as stated, fails: an exception of the feed leaves line 46 through the task; no
  code sets the flag. In the run below the feed fails on the first request: the producer is
  ended, the flag is not set, the worker is suspended in \<open>get\<close> on the empty queue, and
  \<open>run\<close> is still blocked when the schedule is over.
\<close>

theorem feed_failure_strands_worker:
  "run schedule_feed_fails (init ''key'' ''out'' 1 None) = Pending state_stranded \<and>
   producer_task state_stranded = P_Failed FeedError \<and>
   \<not> self_aborted state_stranded \<and>
   worker state_stranded 0 = Some W_Get"
  using run_schedule_feed_fails by (simp add: state_stranded_def worker_def)

text \<open>
  Claim C2, amended. A failure of the feed ends the producer task and changes nothing else:
  the flag, the stored cursor, the queue and the workers are as before. The flag becomes
  set in no step but \<open>abort\<close>. A worker that is suspended in \<open>get\<close> on the empty queue
  when the producer has failed stays suspended in every later state, whether or not
  \<open>abort\<close> is called, and \<open>run\<close> does not return.
\<close>

theorem feed_failure_does_not_abort:
  "(step FeedFail s = Some s' \<longrightarrow>
      producer_task s' = P_Failed FeedError \<and> self_aborted s' = self_aborted s \<and>
      cursor s' = cursor s \<and> queue_items s' = queue_items s \<and>
      self_worker_tasks s' = self_worker_tasks s) \<and>
   (step e s = Some s' \<and> self_aborted s' \<and> \<not> self_aborted s \<longrightarrow> e = Abort) \<and>
   (producer_task s = P_Failed err \<and> queue_items s = [] \<and> worker s i = Some W_Get \<and>
    exec es s = Some t \<longrightarrow>
      producer_task t = P_Failed err \<and> queue_items t = [] \<and> worker t i = Some W_Get) \<and>
   (producer_task s = P_Failed err \<and> queue_items s = [] \<and> worker s i = Some W_Get \<longrightarrow>
      run_until_complete es s \<noteq> Returned t)"
proof -
  have a: "step FeedFail s = Some s' \<longrightarrow>
      producer_task s' = P_Failed FeedError \<and> self_aborted s' = self_aborted s \<and>
      cursor s' = cursor s \<and> queue_items s' = queue_items s \<and>
      self_worker_tasks s' = self_worker_tasks s"
    using feed_fail_step[of s s'] by blast
  have b: "step e s = Some s' \<and> self_aborted s' \<and> \<not> self_aborted s \<longrightarrow> e = Abort"
    using flag_set_only_by_abort[of e s s'] by blast
  have c: "producer_task s = P_Failed err \<and> queue_items s = [] \<and> worker s i = Some W_Get \<and>
    exec es s = Some t \<longrightarrow>
      producer_task t = P_Failed err \<and> queue_items t = [] \<and> worker t i = Some W_Get"
    using exec_stranded[of es s t err i] by blast
  have d: "producer_task s = P_Failed err \<and> queue_items s = [] \<and> worker s i = Some W_Get \<longrightarrow>
      run_until_complete es s \<noteq> Returned t"
    using stranded_never_returns[of s err i es t] by blast
  from a b c d show ?thesis by blast
qed

theorem feed_failure_does_not_abort_witness:
  "step FeedFail (state_stranded\<lparr>producer_task := P_Next\<rparr>) = Some state_stranded \<and>
   self_aborted state_stranded = self_aborted (state_stranded\<lparr>producer_task := P_Next\<rparr>) \<and>
   producer_task state_stranded = P_Failed FeedError \<and>
   queue_items state_stranded = [] \<and>
   worker state_stranded 0 = Some W_Get \<and>
   step Abort state_stranded = Some (abort state_stranded) \<and>
   self_aborted (abort state_stranded) \<and>
   exec [Abort] state_stranded = Some (abort state_stranded) \<and>
   worker (abort state_stranded) 0 = Some W_Get \<and>
   run_until_complete [Abort] state_stranded \<noteq> Returned (abort state_stranded)"
proof -
  let ?s = "state_stranded\<lparr>producer_task := P_Next\<rparr>"
  have st: "step FeedFail ?s = Some state_stranded"
    by (simp add: state_stranded_def)
  have p: "producer_task state_stranded = P_Failed FeedError"
    and q: "queue_items state_stranded = []"
    and w: "worker state_stranded 0 = Some W_Get"
    and na: "\<not> self_aborted state_stranded"
    by (simp_all add: state_stranded_def worker_def)
  have sa: "step Abort state_stranded = Some (abort state_stranded)"
    and ex: "exec [Abort] state_stranded = Some (abort state_stranded)"
    and ab: "self_aborted (abort state_stranded)"
    by (simp_all add: abort_def)
  note th1 = feed_failure_does_not_abort
      [where e = FeedFail and s = ?s and s' = state_stranded]
  note th2 = feed_failure_does_not_abort
      [where e = Abort and s = state_stranded and s' = "abort state_stranded"
         and err = FeedError and i = 0 and es = "[Abort]" and t = "abort state_stranded"]
  from th1 st have f: "self_aborted state_stranded = self_aborted ?s" by blast
  from th2 p q w ex have later: "worker (abort state_stranded) 0 = Some W_Get" by blast
  from th2 p q w have nr: "run_until_complete [Abort] state_stranded \<noteq>
      Returned (abort state_stranded)" by blast
  from st f p q w sa ab ex later nr show ?thesis by blast
qed


subsection \<open>The output paths\<close>





text \<open>What the step that ends an iteration has written: the metadata text under the path
  with the suffix, the downloaded bytes under the path without it.\<close>

lemma worker_writes_artifacts:
  assumes "worker s i = Some (W_Read x)"
    and "step (ReadDone i d WriteOk) s = Some s'"
  shows "files s' (metadata_path s x) = Some (to_dict_json x) \<and>
         files s' (file_path s x) = Some d \<and>
         printed s' = printed s @ [ident x]"
  using assms
  by (auto simp: task_defs metadata_path_def split: task_splits)




subsection \<open>The cursor that \<open>run\<close> leaves behind\<close>

text \<open>
  Claim C1 fails on the code. In the run below, resumed at \<open>p0\<close> with one worker, the
  feed yields \<open>a\<close> and \<open>b\<close>, both are downloaded, written and printed, and the
  interrupt arrives while \<open>b\<close> is downloaded and the producer waits for the feed. The
  worker then finds the flag set and the queue empty and returns, so \<open>run\<close> returns; the
  producer has not reached line 50, and \<open>cursor\<close> is still the starting position
  \<open>p0\<close>, not the position \<open>p2\<close> of \<open>b\<close>, the last object the feed yielded.
\<close>

theorem run_reports_starting_cursor:
  "run schedule_interrupted (init ''key'' ''out'' 1 (Some ''p0'')) = Returned state_interrupted \<and>
   printed state_interrupted = [ident item_a, ident item_b] \<and>
   feed_cursor state_interrupted = Some (pos item_b) \<and>
   cursor state_interrupted = Some ''p0'' \<and>
   cursor state_interrupted \<noteq> Some (pos item_b)"
  using run_schedule_interrupted
  by (simp add: state_interrupted_def cursor_def item_a_def item_b_def)


end
